theory Spec2Isabelle
  imports Main
begin

section \<open>Values of the parsed project document\<close>

text \<open>
  \<^verbatim>\<open>converter2.py\<close> works on what \<^verbatim>\<open>json.loads\<close> returns: \<^verbatim>\<open>None\<close>, booleans,
  integers, strings, lists and dicts. A dict is an association list in insertion order,
  read by its first binding of a key. Text is \<^typ>\<open>string\<close> over ASCII: the Unicode
  tables Python consults for characters above 127 (case mapping, white space, line
  boundaries) are not embedded, and JSON numbers with a fraction or an exponent (Python
  floats) are not part of the value type.
\<close>

datatype json =
    JNull
  | JBool bool
  | JNum int
  | JStr string
  | JArr "json list"
  | JObj "(string \<times> json) list"

text \<open>The exceptions the conversion code can raise.\<close>

datatype error =
    AttributeError
  | TypeError
  | KeyError
  | IndexError
  | JSONDecodeError
  | OSError

section \<open>Python's string methods\<close>

definition is_space :: "char \<Rightarrow> bool" where
  \<comment> \<open>\<^verbatim>\<open>str.isspace\<close> on ASCII: tab, LF, VT, FF, CR, FS, GS, RS, US and the space.\<close>
  "is_space c = (let n = (of_char c :: nat) in (9 \<le> n \<and> n \<le> 13) \<or> (28 \<le> n \<and> n \<le> 32))"

definition strip :: "string \<Rightarrow> string" where
  "strip s = rev (dropWhile is_space (rev (dropWhile is_space s)))"

definition is_cased :: "char \<Rightarrow> bool" where
  "is_cased c = (let n = (of_char c :: nat) in (65 \<le> n \<and> n \<le> 90) \<or> (97 \<le> n \<and> n \<le> 122))"

definition to_upper :: "char \<Rightarrow> char" where
  "to_upper c = (let n = (of_char c :: nat) in if 97 \<le> n \<and> n \<le> 122 then char_of (n - 32) else c)"

definition to_lower :: "char \<Rightarrow> char" where
  "to_lower c = (let n = (of_char c :: nat) in if 65 \<le> n \<and> n \<le> 90 then char_of (n + 32) else c)"

text \<open>
  \<^verbatim>\<open>str.title\<close>: a cased character is upper-cased when the character before it is not
  cased (or there is none), and lower-cased otherwise.
\<close>

fun title_from :: "bool \<Rightarrow> string \<Rightarrow> string" where
  "title_from prev [] = []"
| "title_from prev (c # cs) =
     (if prev then to_lower c else to_upper c) # title_from (is_cased c) cs"

definition title :: "string \<Rightarrow> string" where
  "title s = title_from False s"

fun startswith :: "string \<Rightarrow> string \<Rightarrow> bool" where
  "startswith s [] = True"
| "startswith [] (p # ps) = False"
| "startswith (c # cs) (p # ps) = (c = p \<and> startswith cs ps)"

text \<open>
  \<^verbatim>\<open>s.replace(old, new)\<close> for a non-empty \<^verbatim>\<open>old\<close>: every occurrence, found from the
  left and not overlapping, is replaced.
\<close>

fun replace :: "string \<Rightarrow> string \<Rightarrow> string \<Rightarrow> string" where
  "replace old new [] = []"
| "replace old new (c # cs) =
     (if old \<noteq> [] \<and> startswith (c # cs) old
      then new @ replace old new (drop (length old - 1) cs)
      else c # replace old new cs)"

fun join :: "string \<Rightarrow> string list \<Rightarrow> string" where
  "join sep [] = []"
| "join sep [x] = x"
| "join sep (x # y # ys) = x @ sep @ join sep (y # ys)"

text \<open>\<^verbatim>\<open>sub in s\<close> for two strings: \<^verbatim>\<open>sub\<close> occurs in \<^verbatim>\<open>s\<close>.\<close>

fun occurs_in :: "string \<Rightarrow> string \<Rightarrow> bool" where
  "occurs_in sub [] = (sub = [])"
| "occurs_in sub (c # cs) = (startswith (c # cs) sub \<or> occurs_in sub cs)"

definition is_linebreak :: "char \<Rightarrow> bool" where
  \<comment> \<open>The ASCII line boundaries of \<^verbatim>\<open>str.splitlines\<close>: LF, VT, FF, CR, FS, GS, RS.\<close>
  "is_linebreak c = (let n = (of_char c :: nat) in (10 \<le> n \<and> n \<le> 13) \<or> (28 \<le> n \<and> n \<le> 30))"

text \<open>
  \<^verbatim>\<open>str.splitlines\<close>: CR LF is one boundary, and text that ends with a boundary has no
  empty last line. The first argument is the line read so far.
\<close>

fun splitlines_from :: "string \<Rightarrow> string \<Rightarrow> string list" where
  "splitlines_from cur [] = (if cur = [] then [] else [cur])"
| "splitlines_from cur (c # cs) =
     (if is_linebreak c
      then cur # splitlines_from []
             (if c = CHR 0x0D \<and> take 1 cs = [CHR 0x0A] then drop 1 cs else cs)
      else splitlines_from (cur @ [c]) cs)"

definition splitlines :: "string \<Rightarrow> string list" where
  "splitlines s = splitlines_from [] s"

section \<open>Python's \<^verbatim>\<open>str()\<close> of a parsed value\<close>

definition digit_char :: "nat \<Rightarrow> char" where
  "digit_char d = char_of (48 + d)"

fun nat_digits :: "nat \<Rightarrow> string" where
  "nat_digits n = (if n < 10 then [digit_char n] else nat_digits (n div 10) @ [digit_char (n mod 10)])"

definition int_str :: "int \<Rightarrow> string" where
  "int_str i = (if i < 0 then CHR ''-'' # nat_digits (nat (- i)) else nat_digits (nat i))"

definition hex_char :: "nat \<Rightarrow> char" where
  "hex_char d = (if d < 10 then char_of (48 + d) else char_of (87 + d))"

definition repr_quote :: "string \<Rightarrow> char" where
  \<comment> \<open>Double quotes only when the text holds a single quote and no double quote.\<close>
  "repr_quote s = (if CHR 0x27 \<in> set s \<and> CHR 0x22 \<notin> set s then CHR 0x22 else CHR 0x27)"

definition repr_char :: "char \<Rightarrow> char \<Rightarrow> string" where
  "repr_char q c =
     (let n = (of_char c :: nat) in
      if c = q \<or> c = CHR 0x5C then [CHR 0x5C, c]
      else if n = 9 then [CHR 0x5C, CHR ''t'']
      else if n = 10 then [CHR 0x5C, CHR ''n'']
      else if n = 13 then [CHR 0x5C, CHR ''r'']
      else if n < 32 \<or> n = 127 then [CHR 0x5C, CHR ''x'', hex_char (n div 16), hex_char (n mod 16)]
      else [c])"

definition repr_str :: "string \<Rightarrow> string" where
  "repr_str s = (let q = repr_quote s in [q] @ concat (map (repr_char q) s) @ [q])"

fun py_repr :: "json \<Rightarrow> string" where
  "py_repr JNull = ''None''"
| "py_repr (JBool b) = (if b then ''True'' else ''False'')"
| "py_repr (JNum i) = int_str i"
| "py_repr (JStr s) = repr_str s"
| "py_repr (JArr xs) = ''['' @ join '', '' (map py_repr xs) @ '']''"
| "py_repr (JObj kvs) =
     ''{'' @ join '', '' (map (\<lambda>kv. repr_str (fst kv) @ '': '' @ py_repr (snd kv)) kvs) @ ''}''"

definition py_str :: "json \<Rightarrow> string" where
  "py_str v = (case v of JStr s \<Rightarrow> s | _ \<Rightarrow> py_repr v)"

section \<open>Python's operations on a parsed value\<close>

definition py_truthy :: "json \<Rightarrow> bool" where
  "py_truthy v =
     (case v of JNull \<Rightarrow> False | JBool b \<Rightarrow> b | JNum i \<Rightarrow> i \<noteq> 0
      | JStr s \<Rightarrow> s \<noteq> [] | JArr xs \<Rightarrow> xs \<noteq> [] | JObj kvs \<Rightarrow> kvs \<noteq> [])"

text \<open>\<^verbatim>\<open>d.get(k, default)\<close>: only a dict has the method.\<close>

definition py_get :: "json \<Rightarrow> string \<Rightarrow> json \<Rightarrow> error + json" where
  "py_get d k dflt =
     (case d of
        JObj kvs \<Rightarrow> Inr (case map_of kvs k of None \<Rightarrow> dflt | Some v \<Rightarrow> v)
      | _ \<Rightarrow> Inl AttributeError)"

text \<open>
  \<^verbatim>\<open>k in d\<close> for a string \<^verbatim>\<open>k\<close>: a key of a dict, an element of a list, a part of a
  string; \<^verbatim>\<open>None\<close>, booleans and numbers are not iterable.
\<close>

definition py_contains :: "string \<Rightarrow> json \<Rightarrow> error + bool" where
  "py_contains k d =
     (case d of
        JObj kvs \<Rightarrow> Inr (k \<in> fst ` set kvs)
      | JArr xs \<Rightarrow> Inr (JStr k \<in> set xs)
      | JStr s \<Rightarrow> Inr (occurs_in k s)
      | _ \<Rightarrow> Inl TypeError)"

text \<open>\<^verbatim>\<open>d[k]\<close> for a string \<^verbatim>\<open>k\<close>: lists and strings take integer indices only.\<close>

definition py_getitem :: "json \<Rightarrow> string \<Rightarrow> error + json" where
  "py_getitem d k =
     (case d of
        JObj kvs \<Rightarrow> (case map_of kvs k of None \<Rightarrow> Inl KeyError | Some v \<Rightarrow> Inr v)
      | _ \<Rightarrow> Inl TypeError)"

text \<open>
  \<^verbatim>\<open>for x in v\<close>: the elements of a list, the characters of a string, the keys of a
  dict.
\<close>

definition py_iter :: "json \<Rightarrow> error + json list" where
  "py_iter v =
     (case v of
        JArr xs \<Rightarrow> Inr xs
      | JStr s \<Rightarrow> Inr (map (\<lambda>c. JStr [c]) s)
      | JObj kvs \<Rightarrow> Inr (map (\<lambda>kv. JStr (fst kv)) kvs)
      | _ \<Rightarrow> Inl TypeError)"

text \<open>
  \<^verbatim>\<open>v[0]\<close>: the first element of a list, the first character of a string; a dict
  read from JSON has string keys only, so \<^verbatim>\<open>0\<close> is not one of them.
\<close>

definition py_first :: "json \<Rightarrow> error + json" where
  "py_first v =
     (case v of
        JArr xs \<Rightarrow> (case xs of [] \<Rightarrow> Inl IndexError | x # _ \<Rightarrow> Inr x)
      | JStr s \<Rightarrow> (case s of [] \<Rightarrow> Inl IndexError | c # _ \<Rightarrow> Inr (JStr [c]))
      | JObj kvs \<Rightarrow> Inl KeyError
      | _ \<Rightarrow> Inl TypeError)"

section \<open>\<^verbatim>\<open>get_label\<close>\<close>

text \<open>
  The loop over the fragments of a \<^verbatim>\<open>programLabel\<close> list; the second argument is
  \<^verbatim>\<open>parts\<close> as collected so far.
\<close>

definition label_prefix :: string where
  "label_prefix = ''program-node-label.''"

fun label_parts :: "json list \<Rightarrow> string list \<Rightarrow> error + string list" where
  "label_parts [] parts = Inr parts"
| "label_parts (d # ds) parts =
     (case py_contains ''value'' d of
        Inl e \<Rightarrow> Inl e
      | Inr has_value \<Rightarrow>
          if has_value then
            (case py_getitem d ''value'' of
               Inl e \<Rightarrow> Inl e
             | Inr v \<Rightarrow> label_parts ds (parts @ [py_str v]))
          else
            (case py_contains ''translationKey'' d of
               Inl e \<Rightarrow> Inl e
             | Inr has_key \<Rightarrow>
                 if has_key then
                   (case py_getitem d ''translationKey'' of
                      Inl e \<Rightarrow> Inl e
                    | Inr (JStr key) \<Rightarrow>
                        label_parts ds
                          (parts @ [title (replace ''.'' '' ''
                             (if startswith key label_prefix
                              then drop (length label_prefix) key else key))])
                    | Inr _ \<Rightarrow> Inl AttributeError)
                 else label_parts ds parts))"

text \<open>Lines 38 to 41: the label made from \<^verbatim>\<open>contributedNode.type\<close>, or the sentinel.\<close>

definition label_from_type :: "json \<Rightarrow> error + string" where
  "label_from_type node =
     (case py_get node ''contributedNode'' (JObj []) of
        Inl e \<Rightarrow> Inl e
      | Inr cn \<Rightarrow>
          (case py_get cn ''type'' JNull of
             Inl e \<Rightarrow> Inl e
           | Inr ctype \<Rightarrow>
               if py_truthy ctype then
                 (case ctype of
                    JStr s \<Rightarrow> Inr (title (replace ''-'' '' '' (replace ''ur-'' [] s)))
                  | _ \<Rightarrow> Inl AttributeError)
               else Inr ''Unknown''))"

definition get_label :: "json \<Rightarrow> error + string" where
  "get_label node =
     (case py_get node ''programLabel'' JNull of
        Inl e \<Rightarrow> Inl e
      | Inr pl \<Rightarrow>
          (case (case pl of JStr s \<Rightarrow> strip s | _ \<Rightarrow> []) of
             c # cs \<Rightarrow> Inr (c # cs)
           | [] \<Rightarrow>
               (case (case pl of JArr ds \<Rightarrow> label_parts ds [] | _ \<Rightarrow> Inr []) of
                  Inl e \<Rightarrow> Inl e
                | Inr (p # ps) \<Rightarrow> Inr (strip (join '' '' (p # ps)))
                | Inr [] \<Rightarrow> label_from_type node)))"

section \<open>\<^verbatim>\<open>_walk_pretty\<close>\<close>

text \<open>
  Every value taken out of a dict, and every element met when iterating over it, is
  smaller than the dict: the recursion over the tree ends.
\<close>

fun max_size :: "json list \<Rightarrow> nat" where
  "max_size [] = 0"
| "max_size (x # xs) = max (size x) (max_size xs)"

lemma size_map_of: "map_of kvs k = Some v \<Longrightarrow> size v < size (JObj kvs)"
  by (induction kvs) (auto split: if_splits)

lemma max_size_less: "(\<And>x. x \<in> set xs \<Longrightarrow> size x < n) \<Longrightarrow> 0 < n \<Longrightarrow> max_size xs < n"
  by (induction xs) auto

lemma size_elem_JArr: "x \<in> set xs \<Longrightarrow> size x < size (JArr xs)"
  by (induction xs) auto

lemma max_size_iter: "py_iter v = Inr xs \<Longrightarrow> max_size xs < Suc (size v)"
proof (cases v)
  case (JArr ys)
  assume "py_iter v = Inr xs"
  with JArr have "xs = ys" by (simp add: py_iter_def)
  moreover have "max_size ys < size (JArr ys)"
  proof (rule max_size_less)
    fix x assume "x \<in> set ys"
    then show "size x < size (JArr ys)" by (rule size_elem_JArr)
  next
    show "0 < size (JArr ys)" by simp
  qed
  ultimately show ?thesis using JArr by simp
next
  case (JStr t)
  assume "py_iter v = Inr xs"
  with JStr have "xs = map (\<lambda>c. JStr [c]) t" by (simp add: py_iter_def)
  moreover have "max_size (map (\<lambda>c. JStr [c]) t) = 0" by (induction t) auto
  ultimately show ?thesis by simp
next
  case (JObj kvs)
  assume "py_iter v = Inr xs"
  with JObj have "xs = map (\<lambda>kv. JStr (fst kv)) kvs" by (simp add: py_iter_def)
  moreover have "max_size (map (\<lambda>kv. JStr (fst kv)) kvs) = 0" by (induction kvs) auto
  ultimately show ?thesis by simp
qed (auto simp: py_iter_def)

lemma max_size_children:
  assumes "py_get node k (JArr []) = Inr kids" and "py_iter kids = Inr cs"
  shows "max_size cs < size node"
proof (cases node)
  case (JObj kvs)
  show ?thesis
  proof (cases "map_of kvs k")
    case None
    with JObj assms have "cs = []" by (auto simp: py_get_def py_iter_def)
    with JObj show ?thesis by simp
  next
    case (Some v)
    with JObj assms have "kids = v" by (auto simp: py_get_def)
    with Some have "map_of kvs k = Some kids" by simp
    then have "size kids < size (JObj kvs)" by (rule size_map_of)
    with max_size_iter [OF assms(2)] JObj show ?thesis by simp
  qed
qed (use assms in \<open>auto simp: py_get_def\<close>)

text \<open>
  \<^verbatim>\<open>_walk_pretty(node, indent, lines)\<close>. The list \<^verbatim>\<open>lines\<close> is one object shared by
  the whole walk: \<^verbatim>\<open>lines or []\<close> keeps the caller's list when it is not empty and
  makes a new one otherwise, so after a call on a child the caller's list holds what the
  call returned exactly when the list it passed was not empty.
\<close>

function walk_pretty :: "json \<Rightarrow> nat \<Rightarrow> string list option \<Rightarrow> error + string list"
  and walk_children :: "json list \<Rightarrow> nat \<Rightarrow> string list \<Rightarrow> error + string list" where
  "walk_pretty node indent lines =
     (case get_label node of
        Inl e \<Rightarrow> Inl e
      | Inr label \<Rightarrow>
          (case py_get node ''children'' (JArr []) of
             Inl e \<Rightarrow> Inl e
           | Inr kids \<Rightarrow>
               (case py_iter kids of
                  Inl e \<Rightarrow> Inl e
                | Inr cs \<Rightarrow>
                    walk_children cs (indent + 1)
                      ((case lines of None \<Rightarrow> [] | Some ls \<Rightarrow> ls)
                        @ [concat (replicate indent ''  '') @ label]))))"
| "walk_children [] indent lines = Inr lines"
| "walk_children (child # cs) indent lines =
     (case walk_pretty child indent (Some lines) of
        Inl e \<Rightarrow> Inl e
      | Inr r \<Rightarrow> walk_children cs indent (if lines = [] then lines else r))"
  by pat_completeness auto
termination
proof (relation "measures
    [\<lambda>a. case a of Inl (node, _, _) \<Rightarrow> size node | Inr (cs, _, _) \<Rightarrow> max_size cs,
     \<lambda>a. case a of Inl _ \<Rightarrow> 0 | Inr (cs, _, _) \<Rightarrow> Suc (length cs)]")
  show "wf (measures
    [\<lambda>a. case a of Inl (node, _, _) \<Rightarrow> size node | Inr (cs, _, _) \<Rightarrow> max_size cs,
     \<lambda>a. case a of Inl _ \<Rightarrow> 0 | Inr (cs, _, _) \<Rightarrow> Suc (length cs)])"
    by simp
qed (auto simp: max_size_children)

section \<open>\<^verbatim>\<open>urpx_to_script\<close> and \<^verbatim>\<open>urpx_to_txt\<close>\<close>

text \<open>
  A path is its list of components; \<^verbatim>\<open>dst_dir / name\<close> adds one. The file system holds
  the text of every file, and for every path whether a file can be opened there for
  writing. \<^verbatim>\<open>write_text\<close> replaces the whole content of the file.
\<close>

type_synonym path = "string list"

record filesystem =
  files :: "path \<Rightarrow> string option"
  writable :: "path \<Rightarrow> bool"

definition read_text :: "path \<Rightarrow> filesystem \<Rightarrow> error + string" where
  "read_text p fs = (case files fs p of None \<Rightarrow> Inl OSError | Some t \<Rightarrow> Inr t)"

definition write_text :: "path \<Rightarrow> string \<Rightarrow> filesystem \<Rightarrow> (error + path) \<times> filesystem" where
  "write_text p t fs =
     (if writable fs p then (Inr p, fs\<lparr>files := (files fs)(p \<mapsto> t)\<rparr>) else (Inl OSError, fs))"

definition newline :: string where
  "newline = [CHR 0x0A]"

definition boilerplate :: string where
  "boilerplate = ''  global _hidden_verificationVariable = 0''"

text \<open>The lines \<^verbatim>\<open>urpx_to_script\<close> collects before it writes them.\<close>

definition script_lines :: "json \<Rightarrow> string \<Rightarrow> error + string list" where
  "script_lines data stem =
     (case py_get data ''application'' (JObj []) of
        Inl e \<Rightarrow> Inl e
      | Inr app \<Rightarrow>
     (case py_get app ''applicationInfo'' (JObj []) of
        Inl e \<Rightarrow> Inl e
      | Inr info \<Rightarrow>
     (case py_get info ''name'' (JStr stem) of
        Inl e \<Rightarrow> Inl e
      | Inr func_name \<Rightarrow>
     (case py_get app ''urscript'' (JObj []) of
        Inl e \<Rightarrow> Inl e
      | Inr us \<Rightarrow>
     (case py_get us ''script'' (JStr []) of
        Inl e \<Rightarrow> Inl e
      | Inr urscript \<Rightarrow>
     (case urscript of
        JStr text \<Rightarrow>
          Inr ([''def '' @ py_str func_name @ ''():'', boilerplate]
               @ map (\<lambda>ln. ''  '' @ ln) (splitlines text))
      | _ \<Rightarrow> Inl AttributeError))))))"

definition urpx_to_script :: "json \<Rightarrow> string \<Rightarrow> path \<Rightarrow> filesystem \<Rightarrow> (error + path) \<times> filesystem" where
  "urpx_to_script data stem dst_dir fs =
     (case script_lines data stem of
        Inl e \<Rightarrow> (Inl e, fs)
      | Inr lines \<Rightarrow> write_text (dst_dir @ [stem @ ''_converted.script'']) (join newline lines) fs)"

text \<open>The loop over \<^verbatim>\<open>variableDeclarations\<close>; the second argument is the children of
  \<^verbatim>\<open>vars_node\<close> so far.\<close>

fun variable_leaves :: "json list \<Rightarrow> json list \<Rightarrow> error + json list" where
  "variable_leaves [] leaves = Inr leaves"
| "variable_leaves (var # vars) leaves =
     (case py_get var ''name'' (JStr ''<anon>'') of
        Inl e \<Rightarrow> Inl e
      | Inr name \<Rightarrow> variable_leaves vars (leaves @ [JObj [(''programLabel'', name)]]))"

text \<open>\<^verbatim>\<open>next((n.get("children", []) for n in prog_children if ...), [])\<close>: the children
  of the first node of type \<^verbatim>\<open>ur-functions\<close>; later nodes are not looked at.\<close>

fun func_nodes :: "json list \<Rightarrow> error + json" where
  "func_nodes [] = Inr (JArr [])"
| "func_nodes (n # ns) =
     (case py_get n ''contributedNode'' (JObj []) of
        Inl e \<Rightarrow> Inl e
      | Inr cn \<Rightarrow>
          (case py_get cn ''type'' JNull of
             Inl e \<Rightarrow> Inl e
           | Inr t \<Rightarrow>
               if t = JStr ''ur-functions'' then py_get n ''children'' (JArr [])
               else func_nodes ns))"

definition vars_node :: "json \<Rightarrow> error + json" where
  "vars_node data =
     (case py_get data ''program'' (JObj []) of
        Inl e \<Rightarrow> Inl e
      | Inr prog \<Rightarrow>
     (case py_get prog ''variableDeclarations'' (JArr []) of
        Inl e \<Rightarrow> Inl e
      | Inr decls \<Rightarrow>
     (case py_iter decls of
        Inl e \<Rightarrow> Inl e
      | Inr vars \<Rightarrow>
     (case variable_leaves vars [] of
        Inl e \<Rightarrow> Inl e
      | Inr leaves \<Rightarrow>
          Inr (JObj [(''name'', JStr ''Variables Setup''), (''children'', JArr leaves)])))))"

definition main_func_children :: "json \<Rightarrow> error + json" where
  "main_func_children data =
     (case py_get data ''program'' (JObj []) of
        Inl e \<Rightarrow> Inl e
      | Inr prog \<Rightarrow>
     (case py_get prog ''programContent'' (JObj []) of
        Inl e \<Rightarrow> Inl e
      | Inr content \<Rightarrow>
     (case py_get content ''children'' (JArr []) of
        Inl e \<Rightarrow> Inl e
      | Inr prog_children \<Rightarrow>
     (case py_iter prog_children of
        Inl e \<Rightarrow> Inl e
      | Inr ns \<Rightarrow>
     (case func_nodes ns of
        Inl e \<Rightarrow> Inl e
      | Inr fns \<Rightarrow>
          if py_truthy fns then
            (case py_first fns of
               Inl e \<Rightarrow> Inl e
             | Inr f \<Rightarrow> py_get f ''children'' (JArr []))
          else Inr (JArr []))))))"

text \<open>The tree \<^verbatim>\<open>root\<close> that \<^verbatim>\<open>urpx_to_txt\<close> builds (lines 62 to 74).\<close>

definition outline_root :: "json \<Rightarrow> error + json" where
  "outline_root data =
     (case vars_node data of
        Inl e \<Rightarrow> Inl e
      | Inr vn \<Rightarrow>
     (case main_func_children data of
        Inl e \<Rightarrow> Inl e
      | Inr body \<Rightarrow>
          Inr (JObj [(''name'', JStr ''Program''),
                     (''children'', JArr [vn,
                        JObj [(''name'', JStr ''Robot Program''), (''children'', body)]])])))"

definition txt_lines :: "json \<Rightarrow> error + string list" where
  "txt_lines data =
     (case outline_root data of
        Inl e \<Rightarrow> Inl e
      | Inr root \<Rightarrow> walk_pretty root 0 None)"

definition urpx_to_txt :: "json \<Rightarrow> string \<Rightarrow> path \<Rightarrow> filesystem \<Rightarrow> (error + path) \<times> filesystem" where
  "urpx_to_txt data stem dst_dir fs =
     (case txt_lines data of
        Inl e \<Rightarrow> (Inl e, fs)
      | Inr lines \<Rightarrow> write_text (dst_dir @ [stem @ ''_converted.txt'']) (join newline lines) fs)"

section \<open>\<^verbatim>\<open>Job.run\<close>\<close>

record job =
  src :: path
  dst :: path
  mode :: string

text \<open>\<^verbatim>\<open>Path.stem\<close>: the last component without its suffix; a dot that starts or ends
  the name does not begin a suffix.\<close>

definition path_stem :: "path \<Rightarrow> string" where
  "path_stem p =
     (let name = (if p = [] then [] else last p);
          n = length (takeWhile (\<lambda>c. c \<noteq> CHR ''.'') (rev name))
      in if CHR ''.'' \<in> set name \<and> 0 < n \<and> n + 1 < length name
         then take (length name - n - 1) name else name)"

text \<open>
  \<^verbatim>\<open>json.loads\<close> belongs to Python's library: the parser is a parameter, \<open>None\<close> where
  it raises \<^verbatim>\<open>JSONDecodeError\<close>.
\<close>

definition run :: "(string \<Rightarrow> json option) \<Rightarrow> job \<Rightarrow> filesystem \<Rightarrow> (error + path) \<times> filesystem" where
  "run loads j fs =
     (case read_text (src j) fs of
        Inl e \<Rightarrow> (Inl e, fs)
      | Inr text \<Rightarrow>
          (case loads text of
             None \<Rightarrow> (Inl JSONDecodeError, fs)
           | Some data \<Rightarrow>
               if mode j = ''script'' then urpx_to_script data (path_stem (src j)) (dst j) fs
               else urpx_to_txt data (path_stem (src j)) (dst j) fs))"

section \<open>The data model of the project document\<close>

text \<open>
  A document that is sparse but well formed: every field may be missing, and a field that
  is there has the type the data model gives it. A label fragment is a dict; its
  \<^verbatim>\<open>value\<close> is any text or scalar, its \<^verbatim>\<open>translationKey\<close> a string.
\<close>

fun wf_fragment :: "json \<Rightarrow> bool" where
  "wf_fragment (JObj kvs) =
     (''value'' \<in> fst ` set kvs \<or>
      (case map_of kvs ''translationKey'' of
         None \<Rightarrow> True | Some (JStr key) \<Rightarrow> True | Some _ \<Rightarrow> False))"
| "wf_fragment _ = False"

definition wf_label :: "json \<Rightarrow> bool" where
  "wf_label pl = (case pl of JStr s \<Rightarrow> True | JArr ds \<Rightarrow> list_all wf_fragment ds | _ \<Rightarrow> False)"

definition wf_contributed :: "json \<Rightarrow> bool" where
  "wf_contributed cn =
     (case cn of
        JObj kvs \<Rightarrow> (case map_of kvs ''type'' of None \<Rightarrow> True | Some (JStr t) \<Rightarrow> True | Some _ \<Rightarrow> False)
      | _ \<Rightarrow> False)"

lemma size_child: "map_of kvs k = Some (JArr cs) \<Longrightarrow> x \<in> set cs \<Longrightarrow> size x < size (JObj kvs)"
  using size_map_of [of kvs k "JArr cs"] size_elem_JArr [of x cs] by (rule_tac less_trans)

function wf_node :: "json \<Rightarrow> bool" where
  "wf_node (JObj kvs) =
     ((case map_of kvs ''programLabel'' of None \<Rightarrow> True | Some pl \<Rightarrow> wf_label pl) \<and>
      (case map_of kvs ''contributedNode'' of None \<Rightarrow> True | Some cn \<Rightarrow> wf_contributed cn) \<and>
      (case map_of kvs ''children'' of
         None \<Rightarrow> True | Some (JArr cs) \<Rightarrow> list_all wf_node cs | Some _ \<Rightarrow> False))"
| "wf_node JNull = False"
| "wf_node (JBool b) = False"
| "wf_node (JNum i) = False"
| "wf_node (JStr s) = False"
| "wf_node (JArr xs) = False"
  by pat_completeness auto
termination
  by (relation "measure size") (auto simp del: json.size intro: size_child)

definition wf_variable :: "json \<Rightarrow> bool" where
  "wf_variable var =
     (case var of
        JObj kvs \<Rightarrow> (case map_of kvs ''name'' of None \<Rightarrow> True | Some (JStr n) \<Rightarrow> True | Some _ \<Rightarrow> False)
      | _ \<Rightarrow> False)"

definition wf_application :: "json \<Rightarrow> bool" where
  "wf_application app =
     (case app of
        JObj kvs \<Rightarrow>
          (case map_of kvs ''applicationInfo'' of
             None \<Rightarrow> True
           | Some (JObj info) \<Rightarrow>
               (case map_of info ''name'' of None \<Rightarrow> True | Some (JStr n) \<Rightarrow> True | Some _ \<Rightarrow> False)
           | Some _ \<Rightarrow> False) \<and>
          (case map_of kvs ''urscript'' of
             None \<Rightarrow> True
           | Some (JObj us) \<Rightarrow>
               (case map_of us ''script'' of None \<Rightarrow> True | Some (JStr t) \<Rightarrow> True | Some _ \<Rightarrow> False)
           | Some _ \<Rightarrow> False)
      | _ \<Rightarrow> False)"

definition wf_program :: "json \<Rightarrow> bool" where
  "wf_program prog =
     (case prog of
        JObj kvs \<Rightarrow>
          (case map_of kvs ''variableDeclarations'' of
             None \<Rightarrow> True | Some (JArr vars) \<Rightarrow> list_all wf_variable vars | Some _ \<Rightarrow> False) \<and>
          (case map_of kvs ''programContent'' of
             None \<Rightarrow> True
           | Some (JObj content) \<Rightarrow>
               (case map_of content ''children'' of
                  None \<Rightarrow> True | Some (JArr ns) \<Rightarrow> list_all wf_node ns | Some _ \<Rightarrow> False)
           | Some _ \<Rightarrow> False)
      | _ \<Rightarrow> False)"

definition wf_document :: "json \<Rightarrow> bool" where
  "wf_document data =
     (case data of
        JObj kvs \<Rightarrow>
          (case map_of kvs ''application'' of None \<Rightarrow> True | Some app \<Rightarrow> wf_application app) \<and>
          (case map_of kvs ''program'' of None \<Rightarrow> True | Some prog \<Rightarrow> wf_program prog)
      | _ \<Rightarrow> False)"

text \<open>
  Reading a nested field as the specification names it, \<^verbatim>\<open>a.b.c\<close>: \<open>None\<close> when a
  field on the way is missing or is not a dict.
\<close>

fun field :: "json \<Rightarrow> string list \<Rightarrow> json option" where
  "field v [] = Some v"
| "field (JObj kvs) (k # ks) = (case map_of kvs k of None \<Rightarrow> None | Some v \<Rightarrow> field v ks)"
| "field _ (k # ks) = None"

section \<open>The outline as the specification describes it\<close>

definition children_of :: "json \<Rightarrow> json list" where
  "children_of node =
     (case node of
        JObj kvs \<Rightarrow> (case map_of kvs ''children'' of Some (JArr cs) \<Rightarrow> cs | _ \<Rightarrow> [])
      | _ \<Rightarrow> [])"

definition label_of :: "json \<Rightarrow> string" where
  "label_of node = (case get_label node of Inr s \<Rightarrow> s | Inl e \<Rightarrow> [])"

lemma size_children_of: "c \<in> set (children_of node) \<Longrightarrow> size c < size node"
  by (auto simp: children_of_def simp del: json.size intro: size_child size_child [OF sym]
           split: json.splits option.splits)

text \<open>
  Depth-first preorder: the line of the node, then the lines of each child in order, one
  level deeper.
\<close>

function preorder :: "nat \<Rightarrow> json \<Rightarrow> string list" where
  "preorder depth node =
     (concat (replicate depth ''  '') @ label_of node)
       # concat (map (preorder (depth + 1)) (children_of node))"
  by pat_completeness auto
termination
  by (relation "measure (\<lambda>(depth, node). size node)") (auto simp: size_children_of)

function node_count :: "json \<Rightarrow> nat" where
  "node_count node = 1 + sum_list (map node_count (children_of node))"
  by pat_completeness auto
termination
  by (relation "measure size") (auto simp: size_children_of)

section \<open>The headers of the outline\<close>

text \<open>
  C1. In outline mode the flattened text should hold, under the root's line, the two
  section lines \<^verbatim>\<open>Variables Setup\<close> and \<^verbatim>\<open>Robot Program\<close>. The synthetic nodes carry
  these words in a \<^verbatim>\<open>name\<close> field, which \<^verbatim>\<open>get_label\<close> never reads: whatever their
  children are, the root and both sections resolve to \<^verbatim>\<open>Unknown\<close>, and the empty document
  is written as three such lines.
\<close>

theorem outline_headers_resolve_to_unknown:
  "get_label (JObj [(''name'', JStr ''Program''), (''children'', sections)]) = Inr ''Unknown''
   \<and> get_label (JObj [(''name'', JStr ''Variables Setup''), (''children'', leaves)]) = Inr ''Unknown''
   \<and> get_label (JObj [(''name'', JStr ''Robot Program''), (''children'', body)]) = Inr ''Unknown''
   \<and> txt_lines (JObj []) = Inr [''Unknown'', ''  Unknown'', ''  Unknown'']"
proof -
  have "\<And>n cs. get_label (JObj [(''name'', n), (''children'', cs)]) = Inr ''Unknown''"
    by (simp add: get_label_def label_from_type_def py_get_def py_truthy_def)
  moreover have "txt_lines (JObj []) = Inr [''Unknown'', ''  Unknown'', ''  Unknown'']"
    by code_simp
  ultimately show ?thesis by simp
qed

section \<open>The label made from the node type\<close>

text \<open>
  C3. The type rule should strip \<^verbatim>\<open>ur-\<close> only at the start of the type. The code calls
  \<^verbatim>\<open>replace("ur-", "")\<close>, which removes the three characters wherever they stand:
  \<^verbatim>\<open>ur-move-joint\<close> gives \<^verbatim>\<open>Move Joint\<close>, but \<^verbatim>\<open>ur-contour-move\<close> gives \<^verbatim>\<open>Contomove\<close>
  and \<^verbatim>\<open>four-axis\<close> gives \<^verbatim>\<open>Foaxis\<close>.
\<close>

theorem type_label_removes_every_ur:
  "get_label (JObj [(''contributedNode'', JObj [(''type'', JStr ''ur-move-joint'')])]) = Inr ''Move Joint''
   \<and> get_label (JObj [(''contributedNode'', JObj [(''type'', JStr ''ur-contour-move'')])]) = Inr ''Contomove''
   \<and> get_label (JObj [(''contributedNode'', JObj [(''type'', JStr ''four-axis'')])]) = Inr ''Foaxis''"
  by code_simp

section \<open>Well-formed nodes and the walk\<close>

text \<open>
  On a well-formed node no step of \<^verbatim>\<open>get_label\<close> raises, and the walk with its shared
  list computes the preorder listing.
\<close>

lemma wf_node_dict: "wf_node node \<Longrightarrow> \<exists>kvs. node = JObj kvs"
  by (cases node) simp_all

lemma key_present: "k \<in> fst ` set kvs \<Longrightarrow> \<exists>v. map_of kvs k = Some v"
  by (cases "map_of kvs k") (simp_all add: map_of_eq_None_iff)

lemma wf_node_children:
  assumes "wf_node node"
  shows "py_get node ''children'' (JArr []) = Inr (JArr (children_of node))
         \<and> list_all wf_node (children_of node)"
proof -
  from wf_node_dict [OF assms] obtain kvs where n: "node = JObj kvs" ..
  show ?thesis
  proof (cases "map_of kvs ''children''")
    case None
    with n show ?thesis by (simp add: py_get_def children_of_def)
  next
    case (Some v)
    with assms n have "\<exists>cs. v = JArr cs \<and> list_all wf_node cs"
      by (cases v) simp_all
    then obtain cs where "v = JArr cs \<and> list_all wf_node cs" ..
    with Some n show ?thesis by (simp add: py_get_def children_of_def)
  qed
qed

lemma wf_fragment_step:
  assumes "wf_fragment d"
  shows "\<exists>ps. \<forall>parts. label_parts (d # ds) parts = label_parts ds (parts @ ps)"
proof -
  from assms have "\<exists>kvs. d = JObj kvs" by (cases d) simp_all
  then obtain kvs where d: "d = JObj kvs" ..
  show ?thesis
  proof (cases "''value'' \<in> fst ` set kvs")
    case True
    from key_present [OF True] obtain v where "map_of kvs ''value'' = Some v" ..
    with True d have "\<forall>parts. label_parts (d # ds) parts = label_parts ds (parts @ [py_str v])"
      by (simp add: py_contains_def py_getitem_def)
    then show ?thesis by (rule exI)
  next
    case False
    show ?thesis
    proof (cases "''translationKey'' \<in> fst ` set kvs")
      case True
      from key_present [OF True] obtain v where v: "map_of kvs ''translationKey'' = Some v" ..
      with assms d False have "\<exists>key. v = JStr key"
        by (cases v) simp_all
      then obtain key where "v = JStr key" ..
      with v True False d
      have "\<forall>parts. label_parts (d # ds) parts = label_parts ds
              (parts @ [title (replace ''.'' '' ''
                 (if startswith key label_prefix then drop (length label_prefix) key else key))])"
        by (simp add: py_contains_def py_getitem_def)
      then show ?thesis by (rule exI)
    next
      case nokey: False
      with False d have "\<forall>parts. label_parts (d # ds) parts = label_parts ds (parts @ [])"
        by (simp add: py_contains_def)
      then show ?thesis by (rule exI)
    qed
  qed
qed

lemma label_parts_total:
  "list_all wf_fragment ds \<Longrightarrow> \<exists>ps. \<forall>parts. label_parts ds parts = Inr (parts @ ps)"
proof (induction ds)
  case Nil
  have "\<forall>parts. label_parts [] parts = Inr (parts @ [])" by simp
  then show ?case by (rule exI)
next
  case (Cons d ds)
  then obtain ps where ps: "\<forall>parts. label_parts ds parts = Inr (parts @ ps)" by auto
  from Cons.prems have "wf_fragment d" by simp
  from wf_fragment_step [OF this, of ds]
  obtain qs where "\<forall>parts. label_parts (d # ds) parts = label_parts ds (parts @ qs)" ..
  with ps have "\<forall>parts. label_parts (d # ds) parts = Inr (parts @ (qs @ ps))" by simp
  then show ?case by (rule exI)
qed

lemma wf_contributed_type:
  assumes "wf_contributed cn"
  shows "\<exists>ckvs. cn = JObj ckvs \<and>
          (map_of ckvs ''type'' = None \<or> (\<exists>t. map_of ckvs ''type'' = Some (JStr t)))"
proof -
  from assms have "\<exists>ckvs. cn = JObj ckvs"
    by (cases cn) (simp_all add: wf_contributed_def)
  then obtain ckvs where c: "cn = JObj ckvs" ..
  show ?thesis
  proof (cases "map_of ckvs ''type''")
    case None
    with c show ?thesis by simp
  next
    case (Some v)
    with assms c have "\<exists>t. v = JStr t"
      by (cases v) (simp_all add: wf_contributed_def)
    then obtain t where "v = JStr t" ..
    with Some c show ?thesis by simp
  qed
qed

lemma wf_node_contributed:
  assumes "wf_node node"
  shows "\<exists>cn. py_get node ''contributedNode'' (JObj []) = Inr (JObj cn) \<and>
          (map_of cn ''type'' = None \<or> (\<exists>t. map_of cn ''type'' = Some (JStr t)))"
proof -
  from wf_node_dict [OF assms] obtain kvs where n: "node = JObj kvs" ..
  show ?thesis
  proof (cases "map_of kvs ''contributedNode''")
    case None
    with n show ?thesis by (simp add: py_get_def)
  next
    case (Some cn)
    with assms n have "wf_contributed cn" by simp
    from wf_contributed_type [OF this] obtain ckvs where
      "cn = JObj ckvs \<and> (map_of ckvs ''type'' = None \<or> (\<exists>t. map_of ckvs ''type'' = Some (JStr t)))" ..
    with Some n show ?thesis by (simp add: py_get_def)
  qed
qed

lemma label_from_type_total:
  assumes "wf_node node"
  shows "\<exists>s. label_from_type node = Inr s"
proof -
  from wf_node_contributed [OF assms] obtain cn
    where cn: "py_get node ''contributedNode'' (JObj []) = Inr (JObj cn) \<and>
      (map_of cn ''type'' = None \<or> (\<exists>t. map_of cn ''type'' = Some (JStr t)))" ..
  then have ty: "map_of cn ''type'' = None \<or> (\<exists>t. map_of cn ''type'' = Some (JStr t))" ..
  from ty show ?thesis
  proof
    assume "map_of cn ''type'' = None"
    with cn show ?thesis by (simp add: label_from_type_def py_get_def py_truthy_def)
  next
    assume "\<exists>t. map_of cn ''type'' = Some (JStr t)"
    then obtain t where "map_of cn ''type'' = Some (JStr t)" ..
    with cn show ?thesis by (simp add: label_from_type_def py_get_def py_truthy_def)
  qed
qed

lemma get_label_total:
  assumes "wf_node node"
  shows "\<exists>s. get_label node = Inr s"
proof -
  from wf_node_dict [OF assms] obtain kvs where n: "node = JObj kvs" ..
  from label_from_type_total [OF assms] obtain t where t: "label_from_type node = Inr t" ..
  show ?thesis
  proof (cases "map_of kvs ''programLabel''")
    case None
    with n t show ?thesis by (simp add: get_label_def py_get_def)
  next
    case (Some pl)
    with assms n have wl: "wf_label pl" by simp
    show ?thesis
    proof (cases pl)
      case (JStr s)
      with Some n t show ?thesis
        by (cases "strip s") (simp_all add: get_label_def py_get_def)
    next
      case (JArr ds)
      with wl have "list_all wf_fragment ds" by (simp add: wf_label_def)
      from label_parts_total [OF this] obtain ps
        where "\<forall>parts. label_parts ds parts = Inr (parts @ ps)" ..
      then have "label_parts ds [] = Inr ps" by simp
      with JArr Some n t show ?thesis
        by (cases ps) (simp_all add: get_label_def py_get_def)
    qed (use wl in \<open>simp_all add: wf_label_def\<close>)
  qed
qed


declare walk_pretty.simps [simp del] preorder.simps [simp del] node_count.simps [simp del]

lemma walk_preorder:
  "wf_node node \<Longrightarrow>
     walk_pretty node indent lines =
       Inr ((case lines of None \<Rightarrow> [] | Some ls \<Rightarrow> ls) @ preorder indent node)"
  "list_all wf_node cs \<Longrightarrow> acc \<noteq> [] \<Longrightarrow>
     walk_children cs indent acc = Inr (acc @ concat (map (preorder indent) cs))"
proof (induction node indent lines and cs indent acc rule: walk_pretty_walk_children.induct)
  case (1 node indent lines)
  from get_label_total [OF "1.prems"] obtain label where lab: "get_label node = Inr label" ..
  from wf_node_children [OF "1.prems"]
  have kids: "py_get node ''children'' (JArr []) = Inr (JArr (children_of node))"
    and wfk: "list_all wf_node (children_of node)" by simp_all
  have it: "py_iter (JArr (children_of node)) = Inr (children_of node)"
    by (simp add: py_iter_def)
  let ?start = "(case lines of None \<Rightarrow> [] | Some ls \<Rightarrow> ls) @ [concat (replicate indent ''  '') @ label]"
  have "walk_children (children_of node) (indent + 1) ?start =
          Inr (?start @ concat (map (preorder (indent + 1)) (children_of node)))"
    using "1.IH" [OF lab kids it wfk] by simp
  moreover have "walk_pretty node indent lines = walk_children (children_of node) (indent + 1) ?start"
    by (subst walk_pretty.simps) (simp add: lab kids it)
  moreover have "preorder indent node =
      (concat (replicate indent ''  '') @ label) # concat (map (preorder (indent + 1)) (children_of node))"
    by (subst preorder.simps) (simp add: label_of_def lab)
  ultimately show ?case by simp
next
  case (2 indent lines)
  then show ?case by simp
next
  case (3 child cs indent lines)
  from "3.prems" have wc: "wf_node child" and wcs: "list_all wf_node cs" by simp_all
  have first: "walk_pretty child indent (Some lines) = Inr (lines @ preorder indent child)"
    using "3.IH"(1) [OF wc] by simp
  have "walk_children cs indent (lines @ preorder indent child) =
          Inr ((lines @ preorder indent child) @ concat (map (preorder indent) cs))"
    using "3.IH"(2) [OF first wcs] "3.prems"(2) by simp
  with first "3.prems"(2) show ?case by simp
qed

lemma length_preorder: "length (preorder d node) = node_count node"
proof (induction node arbitrary: d rule: node_count.induct)
  case (1 node)
  have eq: "map (length \<circ> preorder (d + 1)) (children_of node) = map node_count (children_of node)"
    by (rule map_cong) (simp_all add: 1)
  have "length (concat (map (preorder (d + 1)) (children_of node)))
          = sum_list (map (length \<circ> preorder (d + 1)) (children_of node))"
    by (simp only: length_concat map_map)
  with eq have "length (concat (map (preorder (d + 1)) (children_of node)))
          = sum_list (map node_count (children_of node))"
    by (simp only:)
  then show ?case
    by (subst preorder.simps, subst node_count.simps) simp
qed

text \<open>
  C4. For every finite well-formed node tree, \<^verbatim>\<open>_walk_pretty\<close> called with the start
  depth and no list returns one line per node in depth-first preorder: the node before
  its children, the children in their order and one level deeper, each line the
  two-space indent repeated depth times followed by the resolved label. A root with two
  children, the first of them with one child, gives four lines at depths 0, 1, 2, 1.
\<close>

theorem walk_pretty_is_preorder:
  assumes "wf_node root"
  shows "walk_pretty root depth None = Inr (preorder depth root)
         \<and> length (preorder depth root) = node_count root
         \<and> walk_pretty
             (JObj [(''programLabel'', JStr ''a''),
                    (''children'', JArr [
                       JObj [(''programLabel'', JStr ''b''),
                             (''children'', JArr [JObj [(''programLabel'', JStr ''c'')]])],
                       JObj [(''programLabel'', JStr ''d'')]])]) 0 None
           = Inr [''a'', ''  b'', ''    c'', ''  d'']"
proof -
  have "walk_pretty root depth None = Inr (preorder depth root)"
    using walk_preorder(1) [OF assms, of depth None] by simp
  moreover have "length (preorder depth root) = node_count root"
    by (rule length_preorder)
  moreover have "walk_pretty
             (JObj [(''programLabel'', JStr ''a''),
                    (''children'', JArr [
                       JObj [(''programLabel'', JStr ''b''),
                             (''children'', JArr [JObj [(''programLabel'', JStr ''c'')]])],
                       JObj [(''programLabel'', JStr ''d'')]])]) 0 None
           = Inr [''a'', ''  b'', ''    c'', ''  d'']"
    by code_simp
  ultimately show ?thesis by simp
qed

theorem walk_pretty_is_preorder_witness:
  "wf_node (JObj [(''contributedNode'', JObj [(''type'', JStr ''ur-move-to'')]),
                  (''children'', JArr [JObj [(''programLabel'', JStr ''wp'')], JObj []])])
   \<and> walk_pretty (JObj [(''contributedNode'', JObj [(''type'', JStr ''ur-move-to'')]),
                  (''children'', JArr [JObj [(''programLabel'', JStr ''wp'')], JObj []])]) 1 None
       = Inr [''  Move To'', ''    wp'', ''    Unknown'']"
proof -
  let ?t = "JObj [(''contributedNode'', JObj [(''type'', JStr ''ur-move-to'')]),
                  (''children'', JArr [JObj [(''programLabel'', JStr ''wp'')], JObj []])]"
  have h: "wf_node ?t" by code_simp
  have p: "preorder 1 ?t = [''  Move To'', ''    wp'', ''    Unknown'']" by code_simp
  from walk_pretty_is_preorder [OF h, of 1] have "walk_pretty ?t 1 None = Inr (preorder 1 ?t)"
    by (rule conjunct1)
  with h p show ?thesis by simp
qed

end
